theory Spec2Isabelle
  imports Complex_Main
begin

section \<open>Tensors of the substrate\<close>

text \<open>
  The module \<^verbatim>\<open>tensordict/nn/distributions/continuous.py\<close> works on torch tensors.
  A tensor is modelled by its sizes and its elements in row-major order; the elements of a
  floating-point tensor are idealised as reals, and a boolean tensor holds booleans.
  Every tensor of the substrate holds exactly as many elements as its sizes multiply to
  (\<open>wf_tensor\<close>).
\<close>

record 'a tensor =
  shape :: "nat list"
  data :: "'a list"

definition wf_tensor :: "'a tensor \<Rightarrow> bool" where
  "wf_tensor t \<longleftrightarrow> length (data t) = prod_list (shape t)"

text \<open>
  Every \<^verbatim>\<open>raise\<close> of the module and every failure of a substrate call it makes is a value:
  \<^item> \<open>Deprecated\<close>: the \<^verbatim>\<open>RuntimeError\<close> of \<^verbatim>\<open>NormalParamWrapper.__init__\<close>, with its message;
  \<^item> \<open>ShapeMismatch\<close>: the \<^verbatim>\<open>RuntimeError\<close> of \<^verbatim>\<open>AddStateIndependentNormalScale.forward\<close>;
    its arguments are the two shapes the message interpolates,
    \<^verbatim>\<open>loc.shape[-len(self.scale_shape):]\<close> and \<^verbatim>\<open>self.state_independent_scale.shape\<close>;
  \<^item> \<open>UnknownMapping\<close>: the registry \<^verbatim>\<open>mappings\<close> rejecting a name;
  \<^item> \<open>UnpackError expected got\<close>: Python's \<^verbatim>\<open>ValueError\<close> of a tuple assignment;
  \<^item> \<open>ChunkError\<close>, \<open>SplitError\<close>, \<open>ExpandError\<close>, \<open>DimError\<close>: torch rejecting
    \<^verbatim>\<open>chunk\<close>, \<^verbatim>\<open>split\<close>, \<^verbatim>\<open>expand\<close> and a dimension index.
\<close>

datatype error =
    Deprecated string
  | ShapeMismatch "nat list" "nat list"
  | UnknownMapping string
  | UnpackError nat nat
  | ChunkError
  | SplitError
  | ExpandError "nat list" "nat list"
  | DimError int nat

subsection \<open>Python slices\<close>

text \<open>
  \<^verbatim>\<open>xs[i:]\<close> and \<^verbatim>\<open>xs[:i]\<close>: a negative bound counts from the end, and every bound is
  clipped to the list. Python writes \<^verbatim>\<open>-0\<close> as \<^verbatim>\<open>0\<close>, so \<^verbatim>\<open>xs[-0:]\<close> is the whole list.
\<close>

definition slice_from :: "int \<Rightarrow> 'a list \<Rightarrow> 'a list" where
  "slice_from i xs =
     (let n = int (length xs); j = (if i < 0 then max (n + i) 0 else min i n)
      in drop (nat j) xs)"

definition slice_to :: "int \<Rightarrow> 'a list \<Rightarrow> 'a list" where
  "slice_to i xs =
     (let n = int (length xs); j = (if i < 0 then max (n + i) 0 else min i n)
      in take (nat j) xs)"

subsection \<open>Substrate operations\<close>

text \<open>\<open>blocks m n xs\<close>: the first \<open>m\<close> consecutive runs of \<open>n\<close> elements of \<open>xs\<close>.\<close>

definition blocks :: "nat \<Rightarrow> nat \<Rightarrow> 'a list \<Rightarrow> 'a list list" where
  "blocks m n xs = map (\<lambda>i. take n (drop (i * n) xs)) [0..<m]"

definition map_tensor :: "('a \<Rightarrow> 'b) \<Rightarrow> 'a tensor \<Rightarrow> 'b tensor" where
  "map_tensor f t = \<lparr>shape = shape t, data = map f (data t)\<rparr>"

text \<open>\<^verbatim>\<open>Tensor.clamp_min(lb)\<close>: the elementwise maximum with \<open>lb\<close>.\<close>

definition clamp_min :: "('a::linorder) tensor \<Rightarrow> 'a \<Rightarrow> 'a tensor" where
  "clamp_min t lb = map_tensor (\<lambda>x. max x lb) t"

text \<open>
  \<^verbatim>\<open>Tensor.narrow(-1, start, len)\<close> on a tensor of at least one dimension, for
  \<open>start + len\<close> within the last dimension (the only way \<^verbatim>\<open>split\<close> calls it).
\<close>

definition narrow_last :: "'a tensor \<Rightarrow> nat \<Rightarrow> nat \<Rightarrow> 'a tensor" where
  "narrow_last t start len =
     \<lparr>shape = butlast (shape t) @ [len],
      data = concat (map (\<lambda>row. take len (drop start row))
                (blocks (prod_list (butlast (shape t))) (last (shape t)) (data t)))\<rparr>"

text \<open>
  \<^verbatim>\<open>Tensor.split(split_size, -1)\<close>: pieces of \<open>split_size\<close> along the last dimension, the last
  piece holding what remains. The two subtractions never truncate: \<open>num_splits\<close> pieces of
  \<open>split_size\<close> cover the dimension, and overshoot it by less than one piece.
\<close>

definition split_last :: "'a tensor \<Rightarrow> nat \<Rightarrow> error + 'a tensor list" where
  "split_last t split_size =
     (if shape t = [] then Inl SplitError
      else let dim_size = last (shape t) in
        if split_size = 0 \<and> dim_size \<noteq> 0 then Inl SplitError
        else let num_splits =
                   (if split_size = 0 then 1
                    else max ((dim_size + split_size - 1) div split_size) 1);
                 last_split_size = split_size - (split_size * num_splits - dim_size)
             in Inr (map (\<lambda>i. narrow_last t (i * split_size)
                               (if i < num_splits - 1 then split_size else last_split_size))
                       [0..<num_splits]))"

text \<open>
  \<^verbatim>\<open>Tensor.chunk(chunks, -1)\<close>: the piece size is the dimension divided by \<open>chunks\<close>, rounded
  up, and the tensor is split in pieces of that size. A dimension that does not divide evenly
  gives a shorter last piece, or fewer pieces than asked for; an empty dimension gives
  \<open>chunks\<close> empty pieces.
\<close>

definition chunk_last :: "'a tensor \<Rightarrow> nat \<Rightarrow> error + 'a tensor list" where
  "chunk_last t chunks =
     (if shape t = [] \<or> chunks = 0 then Inl ChunkError
      else let dim_size = last (shape t);
               split_size = (dim_size + chunks - 1) div chunks in
        if split_size = 0 \<and> dim_size = 0
        then Inr (map (\<lambda>i. narrow_last t 0 0) [0..<chunks])
        else split_last t split_size)"

text \<open>
  \<^verbatim>\<open>Tensor.expand(sizes)\<close>. The tensor's sizes are aligned with the target from the right;
  a dimension of size 1 is repeated to the target size, any other must equal it, and
  dimensions the tensor lacks are added in front. The module only passes shapes of tensors
  and sample shapes, so the sizes are natural numbers. \<open>expand_data\<close> works on sizes of
  equal length, outermost dimension first.
\<close>

fun expand_data :: "nat list \<Rightarrow> nat list \<Rightarrow> 'a list \<Rightarrow> 'a list" where
  "expand_data (d # ds) (t # ts) xs =
     (if d = t then concat (map (expand_data ds ts) (blocks d (prod_list ds) xs))
      else concat (replicate t (expand_data ds ts (take (prod_list ds) xs))))"
| "expand_data _ _ xs = xs"

definition expand :: "'a tensor \<Rightarrow> nat list \<Rightarrow> error + 'a tensor" where
  "expand t sizes =
     (if length sizes < length (shape t) then Inl (ExpandError (shape t) sizes)
      else let padded = replicate (length sizes - length (shape t)) 1 @ shape t in
        if list_all2 (\<lambda>d s. d = s \<or> d = 1) padded sizes
        then Inr \<lparr>shape = sizes, data = expand_data padded sizes (data t)\<rparr>
        else Inl (ExpandError (shape t) sizes))"

text \<open>\<^verbatim>\<open>Tensor.expand_as(other)\<close> is \<^verbatim>\<open>expand(other.size())\<close>.\<close>

definition expand_as :: "'a tensor \<Rightarrow> 'b tensor \<Rightarrow> error + 'a tensor" where
  "expand_as t other = expand t (shape other)"

text \<open>
  \<^verbatim>\<open>Tensor.all(dim)\<close> on a boolean tensor: the conjunction along one dimension, which is
  removed from the shape. A negative \<open>dim\<close> counts from the end; a tensor without dimensions
  accepts \<open>-1\<close> and \<open>0\<close> and is returned as it is. \<open>and_rows\<close> is the pointwise conjunction
  of the \<open>n\<close> rows of one outer block.
\<close>

definition and_rows :: "nat \<Rightarrow> bool list list \<Rightarrow> bool list" where
  "and_rows inner rows = foldr (map2 (\<and>)) rows (replicate inner True)"

definition all_dim :: "bool tensor \<Rightarrow> int \<Rightarrow> error + bool tensor" where
  "all_dim t i =
     (let nd = int (length (shape t)); lim = max nd 1 in
      if i < - lim \<or> lim \<le> i then Inl (DimError i (length (shape t)))
      else if shape t = [] then Inr t
      else let k = nat (if i < 0 then i + nd else i);
               outer = prod_list (take k (shape t));
               n = shape t ! k;
               inner = prod_list (drop (Suc k) (shape t))
           in Inr \<lparr>shape = take k (shape t) @ drop (Suc k) (shape t),
                   data = concat (map (\<lambda>blk. and_rows inner (blocks n inner blk))
                                    (blocks outer (n * inner) (data t)))\<rparr>)"

text \<open>\<^verbatim>\<open>torch.full(size, fill_value)\<close> and \<^verbatim>\<open>torch.zeros_like(t, dtype=...)\<close>.\<close>

definition full :: "nat list \<Rightarrow> 'a \<Rightarrow> 'a tensor" where
  "full sizes v = \<lparr>shape = sizes, data = replicate (prod_list sizes) v\<rparr>"

definition zeros_like :: "'b tensor \<Rightarrow> ('a::zero) tensor" where
  "zeros_like t = \<lparr>shape = shape t, data = map (\<lambda>_. 0) (data t)\<rparr>"

text \<open>\<^verbatim>\<open>out.masked_fill_(mask, v)\<close> for a mask of the shape of \<open>out\<close>.\<close>

definition masked_fill :: "'a tensor \<Rightarrow> bool tensor \<Rightarrow> 'a \<Rightarrow> 'a tensor" where
  "masked_fill out msk v =
     \<lparr>shape = shape out, data = map2 (\<lambda>x m. if m then v else x) (data out) (data msk)\<rparr>"

section \<open>The registry of positive mappings\<close>

text \<open>
  Modelled from the spec: the function \<^verbatim>\<open>mappings\<close> of \<^verbatim>\<open>tensordict.nn.utils\<close>, which the
  module imports, is not among the sources. The specification (section 4.1) names
  \<^verbatim>\<open>softplus\<close> (\<open>log (1 + exp x)\<close>), \<^verbatim>\<open>biased_softplus_<bias>[_<min>]\<close> (a softplus shifted so
  that it is \<open>bias\<close> at 0, clamped below by \<open>min\<close>), \<^verbatim>\<open>exp\<close>, \<^verbatim>\<open>relu\<close> (\<open>max x 0\<close>) and
  \<^verbatim>\<open>none\<close> (the identity), and has every other name fail with \<open>UnknownMapping\<close>. Numbers are
  read as unsigned decimals. The specification gives the default of \<open>min\<close> only as a tiny
  positive number; \<open>biased_softplus_default_min\<close> stands for it, and nothing below
  depends on its value.
\<close>

definition is_digit :: "char \<Rightarrow> bool" where
  "is_digit c \<longleftrightarrow> c \<in> set ''0123456789''"

definition digits_val :: "string \<Rightarrow> nat" where
  "digits_val s = foldl (\<lambda>acc c. 10 * acc + (of_char c - 48)) 0 s"

definition parse_decimal :: "string \<Rightarrow> real option" where
  "parse_decimal s =
     (let ip = takeWhile is_digit s; rest = dropWhile is_digit s in
      if ip = [] then None
      else if rest = [] then Some (real (digits_val ip))
      else if hd rest = CHR ''.'' \<and> list_all is_digit (tl rest)
        then Some (real (digits_val ip) + real (digits_val (tl rest)) / 10 ^ length (tl rest))
      else None)"

fun split_on :: "char \<Rightarrow> string \<Rightarrow> string list" where
  "split_on c [] = [[]]"
| "split_on c (x # xs) =
     (if x = c then [] # split_on c xs
      else (case split_on c xs of [] \<Rightarrow> [[x]] | w # ws \<Rightarrow> (x # w) # ws))"

definition softplus :: "real \<Rightarrow> real" where
  "softplus x = ln (1 + exp x)"

definition biased_softplus_default_min :: real where
  "biased_softplus_default_min = 1 / 100"

definition biased_softplus :: "real \<Rightarrow> real \<Rightarrow> real \<Rightarrow> real" where
  "biased_softplus bias min_val x = max min_val (softplus (x + ln (exp bias - 1)))"

definition mappings :: "string \<Rightarrow> error + (real \<Rightarrow> real)" where
  "mappings key =
     (if key = ''softplus'' then Inr softplus
      else if key = ''exp'' then Inr exp
      else if key = ''relu'' then Inr (\<lambda>x. max x 0)
      else if key = ''none'' then Inr (\<lambda>x. x)
      else if take 16 key = ''biased_softplus_'' then
        (case map parse_decimal (split_on (CHR ''_'') (drop 16 key)) of
           [Some bias] \<Rightarrow> Inr (biased_softplus bias biased_softplus_default_min)
         | [Some bias, Some min_val] \<Rightarrow> Inr (biased_softplus bias min_val)
         | _ \<Rightarrow> Inl (UnknownMapping key))
      else Inl (UnknownMapping key))"

section \<open>NormalParamWrapper\<close>

text \<open>
  The constructor takes an operator, a mapping name and a lower bound, and raises. It assigns
  no attribute, so an instance would carry nothing.
\<close>

definition NormalParamWrapper_init :: "'op \<Rightarrow> string \<Rightarrow> real \<Rightarrow> error + unit" where
  "NormalParamWrapper_init operator scale_mapping scale_lb =
     Inl (Deprecated ''NormalParamWrapper has been deprecated in favor of `tensordict.nn.NormalParamExtractor`. Use this class instead.'')"

section \<open>NormalParamExtractor\<close>

record NormalParamExtractor =
  npe_scale_mapping :: "real \<Rightarrow> real"
  npe_scale_lb :: real

text \<open>
  \<^verbatim>\<open>__init__(scale_mapping="biased_softplus_1.0", scale_lb=1e-4)\<close> resolves the name of the
  mapping at once.
\<close>

definition NormalParamExtractor_init :: "string \<Rightarrow> real \<Rightarrow> error + NormalParamExtractor" where
  "NormalParamExtractor_init scale_mapping scale_lb =
     (case mappings scale_mapping of
        Inl e \<Rightarrow> Inl e
      | Inr f \<Rightarrow> Inr \<lparr>npe_scale_mapping = f, npe_scale_lb = scale_lb\<rparr>)"

text \<open>
  \<^verbatim>\<open>forward(*tensors)\<close>: the two tuple assignments fail unless there is a first tensor and
  \<^verbatim>\<open>chunk\<close> gives exactly two pieces. The result tuple is the list \<open>loc # scale # others\<close>.
\<close>

definition NormalParamExtractor_forward ::
  "NormalParamExtractor \<Rightarrow> real tensor list \<Rightarrow> error + real tensor list" where
  "NormalParamExtractor_forward m tensors =
     (case tensors of
        [] \<Rightarrow> Inl (UnpackError 1 0)
      | tensor # others \<Rightarrow>
          (case chunk_last tensor 2 of
             Inl e \<Rightarrow> Inl e
           | Inr pieces \<Rightarrow>
               (case pieces of
                  [loc, scale] \<Rightarrow>
                    Inr (loc # clamp_min (map_tensor (npe_scale_mapping m) scale) (npe_scale_lb m)
                           # others)
                | _ \<Rightarrow> Inl (UnpackError 2 (length pieces)))))"

section \<open>AddStateIndependentNormalScale\<close>

text \<open>
  The argument \<^verbatim>\<open>scale_shape\<close> is \<^verbatim>\<open>None\<close>, an integer or a sequence of sizes. The scale is a
  \<^verbatim>\<open>Parameter\<close> when \<^verbatim>\<open>make_param\<close> holds and a \<^verbatim>\<open>Buffer\<close> otherwise; the model keeps the flag.
  The device does not change any value and is left out.
\<close>

datatype shape_arg = ShapeNone | ShapeInt nat | ShapeSeq "nat list"

record AddStateIndependentNormalScale =
  asins_scale_lb :: real
  asins_scale_shape :: "nat list"
  asins_scale_mapping :: string
  state_independent_scale :: "real tensor"
  asins_is_param :: bool

text \<open>
  \<^verbatim>\<open>__init__(scale_shape=None, scale_mapping="exp", scale_lb=1e-4, make_param=True,
  init_value=0.0)\<close> stores the name of the mapping as it is; it has no failing branch.
\<close>

definition AddStateIndependentNormalScale_init ::
  "shape_arg \<Rightarrow> string \<Rightarrow> real \<Rightarrow> bool \<Rightarrow> real \<Rightarrow> error + AddStateIndependentNormalScale" where
  "AddStateIndependentNormalScale_init scale_shape scale_mapping scale_lb make_param init_value =
     (let sizes = (case scale_shape of
                     ShapeNone \<Rightarrow> []
                   | ShapeInt n \<Rightarrow> [n]
                   | ShapeSeq s \<Rightarrow> s)
      in Inr \<lparr>asins_scale_lb = scale_lb,
              asins_scale_shape = sizes,
              asins_scale_mapping = scale_mapping,
              state_independent_scale = full sizes init_value,
              asins_is_param = make_param\<rparr>)"

text \<open>
  \<^verbatim>\<open>forward(loc, *others)\<close>: the shape test first, then \<^verbatim>\<open>expand_as\<close>, then the lookup of the
  mapping.
\<close>

definition AddStateIndependentNormalScale_forward ::
  "AddStateIndependentNormalScale \<Rightarrow> real tensor \<Rightarrow> real tensor list \<Rightarrow> error + real tensor list" where
  "AddStateIndependentNormalScale_forward m loc others =
     (let tail = slice_from (- int (length (asins_scale_shape m))) (shape loc) in
      if asins_scale_shape m \<noteq> tail
      then Inl (ShapeMismatch tail (shape (state_independent_scale m)))
      else (case expand_as (state_independent_scale m) loc of
              Inl e \<Rightarrow> Inl e
            | Inr scale \<Rightarrow>
                (case mappings (asins_scale_mapping m) of
                   Inl e \<Rightarrow> Inl e
                 | Inr f \<Rightarrow> Inr (loc # clamp_min (map_tensor f scale) (asins_scale_lb m) # others))))"

section \<open>Delta\<close>

record Delta =
  param :: "real tensor"
  atol :: real
  rtol :: real
  batch_shape :: "nat list"
  event_shape :: "nat list"

text \<open>\<^verbatim>\<open>update\<close> replaces the parameter and touches nothing else.\<close>

definition update :: "Delta \<Rightarrow> real tensor \<Rightarrow> Delta" where
  "update d p = d\<lparr>param := p\<rparr>"

text \<open>
  \<^verbatim>\<open>__init__(param, atol=1e-6, rtol=1e-6, batch_shape=None, event_shape=None)\<close>. An omitted shape
  becomes the empty one; when both are empty they are taken from the parameter; the
  base class then stores them.
\<close>

definition Delta_init ::
  "real tensor \<Rightarrow> real \<Rightarrow> real \<Rightarrow> nat list option \<Rightarrow> nat list option \<Rightarrow> Delta" where
  "Delta_init p a r batch_shape_arg event_shape_arg =
     (let bs = (case batch_shape_arg of None \<Rightarrow> [] | Some s \<Rightarrow> s);
          es = (case event_shape_arg of None \<Rightarrow> [] | Some s \<Rightarrow> s);
          d = update \<lparr>param = p, atol = a, rtol = r, batch_shape = [], event_shape = []\<rparr> p
      in if length bs = 0 \<and> length es = 0
         then d\<lparr>batch_shape := slice_to (- 1) (shape p), event_shape := slice_from (- 1) (shape p)\<rparr>
         else d\<lparr>batch_shape := bs, event_shape := es\<rparr>)"

text \<open>
  \<^verbatim>\<open>_is_equal\<close>: the loop runs \<open>i\<close> over \<^verbatim>\<open>range(-1, -len(self.event_shape) - 1, -1)\<close>, that is
  \<open>-1, -2, \<dots>, -len(event_shape)\<close>, and replaces \<open>is_equal\<close> by \<^verbatim>\<open>is_equal.all(i)\<close> each time.
\<close>

definition event_range :: "nat \<Rightarrow> int list" where
  "event_range n = map (\<lambda>j. - int (Suc j)) [0..<n]"

fun all_loop :: "int list \<Rightarrow> bool tensor \<Rightarrow> error + bool tensor" where
  "all_loop [] is_equal = Inr is_equal"
| "all_loop (i # rest) is_equal =
     (case all_dim is_equal i of
        Inl e \<Rightarrow> Inl e
      | Inr is_equal' \<Rightarrow> all_loop rest is_equal')"

definition is_equal_of :: "Delta \<Rightarrow> real tensor \<Rightarrow> error + bool tensor" where
  "is_equal_of d value =
     (case expand_as (param d) value of
        Inl e \<Rightarrow> Inl e
      | Inr p \<Rightarrow>
          all_loop (event_range (length (event_shape d)))
            \<lparr>shape = shape value,
             data = map2 (\<lambda>v q. \<bar>v - q\<bar> < atol d + rtol d * \<bar>q\<bar>) (data value) (data p)\<rparr>)"

text \<open>
  \<^verbatim>\<open>log_prob\<close> fills a tensor of zeros with \<^verbatim>\<open>np.inf\<close> and \<^verbatim>\<open>-np.inf\<close>; its elements are reals
  or one of the two infinities.
\<close>

datatype xreal = NegInf | Finite real | PosInf

instantiation xreal :: zero
begin
definition zero_xreal :: xreal where "zero_xreal = Finite 0"
instance ..
end

definition log_prob :: "Delta \<Rightarrow> real tensor \<Rightarrow> error + xreal tensor" where
  "log_prob d value =
     (case is_equal_of d value of
        Inl e \<Rightarrow> Inl e
      | Inr is_equal \<Rightarrow>
          (let out = zeros_like is_equal;
               out1 = masked_fill out is_equal PosInf;
               out2 = masked_fill out1 (map_tensor Not is_equal) NegInf
           in Inr out2))"

text \<open>\<^verbatim>\<open>sample\<close> and \<^verbatim>\<open>rsample\<close>: an omitted sample shape is the empty one.\<close>

definition sample :: "Delta \<Rightarrow> nat list option \<Rightarrow> error + real tensor" where
  "sample d sample_shape_arg =
     (let sample_shape = (case sample_shape_arg of None \<Rightarrow> [] | Some s \<Rightarrow> s)
      in expand (param d) (sample_shape @ shape (param d)))"

definition rsample :: "Delta \<Rightarrow> nat list option \<Rightarrow> error + real tensor" where
  "rsample d sample_shape_arg =
     (let sample_shape = (case sample_shape_arg of None \<Rightarrow> [] | Some s \<Rightarrow> s)
      in expand (param d) (sample_shape @ shape (param d)))"

definition mode :: "Delta \<Rightarrow> real tensor" where
  "mode d = param d"

definition mean :: "Delta \<Rightarrow> real tensor" where
  "mean d = param d"

definition deterministic_sample :: "Delta \<Rightarrow> real tensor" where
  "deterministic_sample d = param d"

section \<open>Slices, blocks and expansion\<close>

lemma slice_to_minus1: "slice_to (- 1) xs = butlast xs"
  by (cases xs rule: rev_cases) (simp_all add: slice_to_def Let_def)

lemma slice_from_minus1: "slice_from (- 1) xs = (if xs = [] then [] else [last xs])"
  by (cases xs rule: rev_cases) (simp_all add: slice_from_def Let_def)

lemma slice_from_zero: "slice_from 0 xs = xs"
  by (simp add: slice_from_def)

lemma slice_from_neg:
  "0 < k \<Longrightarrow> slice_from (- int k) xs = drop (length xs - k) xs"
  by (simp add: slice_from_def Let_def max_def nat_diff_distrib') 

lemma length_blocks: "length (blocks m n xs) = m"
  by (simp add: blocks_def)

lemma blocks_Suc: "blocks (Suc m) n xs = blocks m n xs @ [take n (drop (m * n) xs)]"
  by (simp add: blocks_def)

lemma concat_blocks: "concat (blocks m n xs) = take (m * n) xs"
proof (induction m)
  case 0
  show ?case by (simp add: blocks_def)
next
  case (Suc m)
  have "take (m * n) xs @ take n (drop (m * n) xs) = take (m * n + n) xs"
    by (simp add: take_add)
  with Suc show ?case by (simp add: blocks_Suc add.commute)
qed

lemma nth_blocks: "i < m \<Longrightarrow> blocks m n xs ! i = take n (drop (i * n) xs)"
  by (simp add: blocks_def)

lemma length_in_blocks:
  assumes "m * n \<le> length xs" and "b \<in> set (blocks m n xs)"
  shows "length b = n"
proof -
  from assms(2) obtain i where i: "i < m" and b: "b = take n (drop (i * n) xs)"
    by (auto simp: blocks_def)
  from i have "Suc i * n \<le> m * n" by (intro mult_le_mono1) simp
  with assms(1) have "i * n + n \<le> length xs" by simp
  with b show ?thesis by simp
qed

lemma nth_concat_uniform:
  "\<forall>b \<in> set bs. length b = n \<Longrightarrow> r < length bs \<Longrightarrow> j < n \<Longrightarrow>
     concat bs ! (r * n + j) = bs ! r ! j"
proof (induction bs arbitrary: r)
  case Nil
  then show ?case by simp
next
  case (Cons b bs)
  show ?case
  proof (cases r)
    case 0
    with Cons.prems show ?thesis by (simp add: nth_append)
  next
    case (Suc r')
    with Cons.prems have "concat bs ! (r' * n + j) = bs ! r' ! j"
      by (intro Cons.IH) auto
    with Suc Cons.prems show ?thesis by (simp add: nth_append add.assoc)
  qed
qed

lemma length_concat_uniform:
  "\<forall>b \<in> set bs. length b = n \<Longrightarrow> length (concat bs) = length bs * n"
  by (induction bs) auto

lemma expand_data_same:
  "length xs = prod_list sh \<Longrightarrow> expand_data sh sh xs = xs"
proof (induction sh arbitrary: xs)
  case Nil
  show ?case by simp
next
  case (Cons d ds)
  have len: "d * prod_list ds \<le> length xs" using Cons.prems by simp
  have "map (expand_data ds ds) (blocks d (prod_list ds) xs) = blocks d (prod_list ds) xs"
    by (rule map_idI) (simp add: Cons.IH length_in_blocks [OF len])
  with Cons.prems show ?case by (simp add: concat_blocks)
qed

lemma concat_replicate_mult:
  "concat (replicate a (concat (replicate b xs))) = concat (replicate (a * b) xs)"
  by (induction a) (simp_all add: replicate_add)

lemma expand_data_lead:
  "length xs = prod_list sh \<Longrightarrow>
     expand_data (replicate (length s) 1 @ sh) (s @ sh) xs = concat (replicate (prod_list s) xs)"
proof (induction s)
  case Nil
  then show ?case by (simp add: expand_data_same)
next
  case (Cons t s)
  let ?ds = "replicate (length s) 1 @ sh"
  have n: "prod_list ?ds = length xs"
    using Cons.prems by simp
  have b: "blocks 1 (length xs) xs = [xs]" by (simp add: blocks_def)
  have ih: "expand_data ?ds (s @ sh) xs = concat (replicate (prod_list s) xs)"
    by (rule Cons.IH [OF Cons.prems])
  have step: "expand_data (1 # ?ds) (t # (s @ sh)) xs =
      (if 1 = t then concat (map (expand_data ?ds (s @ sh)) (blocks 1 (prod_list ?ds) xs))
       else concat (replicate t (expand_data ?ds (s @ sh) (take (prod_list ?ds) xs))))"
    by (rule expand_data.simps(1))
  show ?case
  proof (cases "t = 1")
    case True
    have "expand_data (1 # ?ds) (t # (s @ sh)) xs = expand_data ?ds (s @ sh) xs"
      unfolding step n b using True by simp
    with ih True show ?thesis by simp
  next
    case False
    have "expand_data (1 # ?ds) (t # (s @ sh)) xs = concat (replicate t (expand_data ?ds (s @ sh) xs))"
      unfolding step n using False by simp
    with ih show ?thesis by (simp add: concat_replicate_mult)
  qed
qed

section \<open>Chunks of the last dimension\<close>

lemma split_last_two:
  assumes "shape t \<noteq> []" and "0 < ss" and "(last (shape t) + ss - 1) div ss = 2"
  shows "split_last t ss =
           Inr [narrow_last t 0 ss, narrow_last t ss (ss - (ss * 2 - last (shape t)))]"
proof -
  have u: "[0..<2] = [0, Suc 0]" by (simp add: upt_rec)
  show ?thesis using assms by (simp add: split_last_def Let_def u mult_2_right)
qed

lemma chunk_last_even:
  assumes "shape t = sh @ [2 * k]"
  shows "chunk_last t 2 = Inr [narrow_last t 0 k, narrow_last t k k]"
proof (cases "k = 0")
  case True
  have "[0..<2] = [0, Suc 0]" by (simp add: upt_rec)
  with assms True show ?thesis by (simp add: chunk_last_def)
next
  case False
  have c: "chunk_last t 2 = split_last t k"
    using assms False by (simp add: chunk_last_def Let_def)
  have "(2 * k + k - 1) div k = 2"
    using False by (intro div_nat_eqI) simp_all
  then have d: "(last (shape t) + k - 1) div k = 2"
    using assms by simp
  have "split_last t k = Inr [narrow_last t 0 k, narrow_last t k (k - (k * 2 - last (shape t)))]"
    using assms False by (intro split_last_two [OF _ _ d]) simp_all
  with c assms show ?thesis by simp
qed

lemma chunk_last_odd:
  assumes "shape t = sh @ [2 * k + 3]"
  shows "chunk_last t 2 = Inr [narrow_last t 0 (k + 2), narrow_last t (k + 2) (k + 1)]"
proof -
  have "(2 * k + 3 + 2 - 1) div 2 = k + 2" by simp
  then have c: "chunk_last t 2 = split_last t (k + 2)"
    using assms by (simp add: chunk_last_def Let_def)
  have "(2 * k + 3 + (k + 2) - 1) div (k + 2) = 2"
    by (intro div_nat_eqI) simp_all
  then have d: "(last (shape t) + (k + 2) - 1) div (k + 2) = 2"
    using assms by simp
  have "split_last t (k + 2) =
          Inr [narrow_last t 0 (k + 2),
               narrow_last t (k + 2) (k + 2 - ((k + 2) * 2 - last (shape t)))]"
    using assms by (intro split_last_two [OF _ _ d]) simp_all
  moreover have "k + 2 - ((k + 2) * 2 - last (shape t)) = k + 1"
    using assms by simp
  ultimately show ?thesis using c by simp
qed

lemma chunk_last_one:
  assumes "shape t = sh @ [1]"
  shows "chunk_last t 2 = Inr [narrow_last t 0 1]"
  using assms by (simp add: chunk_last_def split_last_def)

lemma shape_narrow_last: "shape t = sh @ [n] \<Longrightarrow> shape (narrow_last t s l) = sh @ [l]"
  by (simp add: narrow_last_def)

lemma narrow_last_rows:
  assumes wf: "wf_tensor t" and sh: "shape t = sh @ [n]" and fit: "s + l \<le> n"
  shows "length (data (narrow_last t s l)) = prod_list sh * l"
    and "r < prod_list sh \<Longrightarrow> j < l \<Longrightarrow>
           data (narrow_last t s l) ! (r * l + j) = data t ! (r * n + s + j)"
proof -
  let ?rows = "blocks (prod_list sh) n (data t)"
  let ?cut = "map (\<lambda>row. take l (drop s row)) ?rows"
  have len: "prod_list sh * n \<le> length (data t)"
    using wf sh by (simp add: wf_tensor_def)
  have rows: "\<forall>b \<in> set ?rows. length b = n"
    using length_in_blocks [OF len] by blast
  have cut: "\<forall>b \<in> set ?cut. length b = l"
    using rows fit by auto
  have d: "data (narrow_last t s l) = concat ?cut"
    using sh by (simp add: narrow_last_def)
  show "length (data (narrow_last t s l)) = prod_list sh * l"
    unfolding d using length_concat_uniform [OF cut] by (simp add: length_blocks)
  assume r: "r < prod_list sh" and j: "j < l"
  have "Suc r * n \<le> prod_list sh * n" using r by (intro mult_le_mono1) simp
  with len have in_range: "r * n + n \<le> length (data t)" by simp
  from fit j have sj: "s + j < n" by simp
  have "concat ?cut ! (r * l + j) = ?cut ! r ! j"
    using cut r j by (intro nth_concat_uniform) (simp_all add: length_blocks)
  also have "\<dots> = take l (drop s (?rows ! r)) ! j"
    using r by (simp add: length_blocks)
  also have "\<dots> = drop s (?rows ! r) ! j"
    using j by simp
  also have "\<dots> = take n (drop (r * n) (data t)) ! (s + j)"
    using r in_range fit by (simp add: nth_blocks)
  also have "\<dots> = data t ! (r * n + s + j)"
    using sj in_range by (simp add: add.assoc)
  finally show "data (narrow_last t s l) ! (r * l + j) = data t ! (r * n + s + j)"
    unfolding d .
qed

lemma clamp_min_bound: "\<forall>v \<in> set (data (clamp_min t lb)). lb \<le> v"
  by (auto simp: clamp_min_def map_tensor_def)

lemma shape_clamp_map: "shape (clamp_min (map_tensor f t) lb) = shape t"
  by (simp add: clamp_min_def map_tensor_def)

lemma data_clamp_map: "data (clamp_min (map_tensor f t) lb) = map (\<lambda>x. max (f x) lb) (data t)"
  by (simp add: clamp_min_def map_tensor_def)


lemma expand_same: "wf_tensor t \<Longrightarrow> expand t (shape t) = Inr t"
  by (simp add: expand_def wf_tensor_def expand_data_same list_all2_same)

lemma expand_lead:
  assumes "wf_tensor t"
  shows "expand t (s @ shape t) =
           Inr \<lparr>shape = s @ shape t, data = concat (replicate (prod_list s) (data t))\<rparr>"
proof -
  have len: "length (data t) = prod_list (shape t)"
    using assms by (simp add: wf_tensor_def)
  have ok: "list_all2 (\<lambda>d s. d = s \<or> d = 1) (replicate (length s) 1 @ shape t) (s @ shape t)"
    by (rule list_all2_appendI) (simp_all add: list_all2_conv_all_nth)
  show ?thesis
    using ok expand_data_lead [OF len, of s] by (simp add: expand_def)
qed

section \<open>The shape test and the result of \<^verbatim>\<open>log_prob\<close>\<close>

lemma wf_full: "wf_tensor (full sizes v)"
  by (simp add: wf_tensor_def full_def)

lemma slice_from_suffix:
  assumes "slice_from (- int (length ss)) xs = ss"
  shows "\<exists>pre. xs = pre @ ss"
proof (cases "ss = []")
  case True
  with assms show ?thesis by (simp add: slice_from_zero)
next
  case False
  then have "slice_from (- int (length ss)) xs = drop (length xs - length ss) xs"
    by (intro slice_from_neg) simp
  with assms have "xs = take (length xs - length ss) xs @ ss"
    by (metis append_take_drop_id)
  then show ?thesis ..
qed

lemma mappings_error: "mappings key = Inl e \<Longrightarrow> e = UnknownMapping key"
  by (auto simp: mappings_def split: if_splits list.splits option.splits)

lemma forward_shape_mismatch:
  "asins_scale_shape m \<noteq> slice_from (- int (length (asins_scale_shape m))) (shape loc) \<Longrightarrow>
     AddStateIndependentNormalScale_forward m loc others =
       Inl (ShapeMismatch (slice_from (- int (length (asins_scale_shape m))) (shape loc))
              (shape (state_independent_scale m)))"
  by (simp add: AddStateIndependentNormalScale_forward_def Let_def)

lemma forward_shape_match:
  assumes "asins_scale_shape m = slice_from (- int (length (asins_scale_shape m))) (shape loc)"
    and "wf_tensor (state_independent_scale m)"
    and "shape (state_independent_scale m) = asins_scale_shape m"
  shows "AddStateIndependentNormalScale_forward m loc others =
     (case mappings (asins_scale_mapping m) of
        Inl e \<Rightarrow> Inl e
      | Inr f \<Rightarrow>
          Inr (loc #
               \<lparr>shape = shape loc,
                data = map (\<lambda>v. max (f v) (asins_scale_lb m))
                  (concat (replicate
                     (prod_list (take (length (shape loc) - length (asins_scale_shape m)) (shape loc)))
                     (data (state_independent_scale m))))\<rparr> # others))"
proof -
  let ?ss = "asins_scale_shape m"
  let ?pre = "take (length (shape loc) - length ?ss) (shape loc)"
  from assms(1) obtain pre where pre: "shape loc = pre @ ?ss"
    using slice_from_suffix [of ?ss "shape loc"] by auto
  then have p: "?pre = pre" by simp
  have "expand (state_independent_scale m) (pre @ shape (state_independent_scale m)) =
          Inr \<lparr>shape = pre @ shape (state_independent_scale m),
               data = concat (replicate (prod_list pre) (data (state_independent_scale m)))\<rparr>"
    by (rule expand_lead [OF assms(2)])
  then have e: "expand_as (state_independent_scale m) loc =
          Inr \<lparr>shape = shape loc,
               data = concat (replicate (prod_list ?pre) (data (state_independent_scale m)))\<rparr>"
    unfolding p by (simp add: expand_as_def assms(3) pre)
  show ?thesis
    using assms(1)
    by (simp add: AddStateIndependentNormalScale_forward_def Let_def e clamp_min_def
          map_tensor_def split: sum.splits)
qed

lemma forward_empty_scale_shape:
  "asins_scale_shape m = [] \<Longrightarrow> shape loc \<noteq> [] \<Longrightarrow>
     AddStateIndependentNormalScale_forward m loc others =
       Inl (ShapeMismatch (shape loc) (shape (state_independent_scale m)))"
  by (simp add: AddStateIndependentNormalScale_forward_def slice_from_zero)

lemma log_prob_not_finite:
  assumes "log_prob d value = Inr out"
  shows "\<forall>v \<in> set (data out). v = PosInf \<or> v = NegInf"
proof -
  from assms obtain is_equal where
    out: "out = masked_fill (masked_fill (zeros_like is_equal) is_equal PosInf)
                  (map_tensor Not is_equal) NegInf"
    by (auto simp: log_prob_def Let_def split: sum.splits)
  have "data out = map (\<lambda>b. if b then PosInf else NegInf) (data is_equal)"
    unfolding out
    by (simp add: masked_fill_def zeros_like_def map_tensor_def zip_map1 zip_map2 zip_same_conv_map
          map2_map_map) 
  then show ?thesis by auto
qed

section \<open>Reduction over one event dimension\<close>

text \<open>
  With a single event dimension the loop of \<^verbatim>\<open>_is_equal\<close> makes one call, \<^verbatim>\<open>all(-1)\<close>, and
  \<^verbatim>\<open>log_prob\<close> is the tensor of the batch shape that holds \<open>PosInf\<close> where a whole row of the
  value is within tolerance of the parameter and \<open>NegInf\<close> elsewhere.
\<close>

lemma length_expand_data:
  "list_all2 (\<lambda>d s. d = s \<or> d = 1) ds ts \<Longrightarrow> length xs = prod_list ds \<Longrightarrow>
     length (expand_data ds ts xs) = prod_list ts"
proof (induction ds ts arbitrary: xs rule: list_all2_induct)
  case Nil
  then show ?case by simp
next
  case (Cons d ds t ts)
  show ?case
  proof (cases "d = t")
    case True
    have len: "d * prod_list ds \<le> length xs" using Cons.prems by simp
    have "\<forall>b \<in> set (map (expand_data ds ts) (blocks d (prod_list ds) xs)). length b = prod_list ts"
      using Cons.IH length_in_blocks [OF len] by auto
    from length_concat_uniform [OF this] True show ?thesis
      by (simp add: length_blocks)
  next
    case False
    with Cons.hyps have d: "d = 1" by simp
    have "length (expand_data ds ts (take (prod_list ds) xs)) = prod_list ts"
      using Cons.prems d by (intro Cons.IH) simp
    moreover have "length (concat (replicate t ys)) = t * length ys" for ys :: "'a list"
      by (induction t) simp_all
    ultimately show ?thesis using False by simp
  qed
qed

lemma wf_expand: "wf_tensor t \<Longrightarrow> expand t sizes = Inr u \<Longrightarrow> wf_tensor u \<and> shape u = sizes"
  by (auto simp: expand_def wf_tensor_def Let_def length_expand_data split: if_splits)

lemma and_rows_single: "and_rows 1 (map (\<lambda>x. [x]) xs) = [\<forall>x \<in> set xs. x]"
  by (induction xs) (simp_all add: and_rows_def)

lemma blocks_single: "length xs = n \<Longrightarrow> blocks n 1 xs = map (\<lambda>x. [x]) xs"
proof -
  assume n: "length xs = n"
  have "blocks n 1 xs = map (\<lambda>i. [xs ! i]) [0..<length xs]"
    unfolding blocks_def n [symmetric]
    by (rule map_cong) (simp_all add: take_Suc_conv_app_nth)
  also have "\<dots> = map (\<lambda>x. [x]) (map (nth xs) [0..<length xs])"
    by simp
  finally show ?thesis by (simp only: map_nth)
qed

lemma concat_map_single: "concat (map (\<lambda>b. [f b]) xs) = map f xs"
  by (induction xs) simp_all

lemma all_dim_last:
  assumes "length cs = prod_list bs * n"
  shows "all_dim \<lparr>shape = bs @ [n], data = cs\<rparr> (- 1) =
           Inr \<lparr>shape = bs, data = map (\<lambda>r. \<forall>j < n. cs ! (r * n + j)) [0..<prod_list bs]\<rparr>"
proof -
  let ?rows = "blocks (prod_list bs) n cs"
  have len: "prod_list bs * n \<le> length cs" using assms by simp
  have row: "and_rows 1 (blocks n 1 b) = [\<forall>x \<in> set b. x]" if "b \<in> set ?rows" for b
    using length_in_blocks [OF len that] blocks_single [of b n] and_rows_single [of b] by simp
  have "map (\<lambda>b. and_rows 1 (blocks n 1 b)) ?rows = map (\<lambda>b. [\<forall>x \<in> set b. x]) ?rows"
    by (rule map_cong [OF refl]) (rule row)
  then have "concat (map (\<lambda>b. and_rows 1 (blocks n 1 b)) ?rows) = map (\<lambda>b. \<forall>x \<in> set b. x) ?rows"
    by (simp only: concat_map_single)
  also have "\<dots> = map (\<lambda>r. \<forall>j < n. cs ! (r * n + j)) [0..<prod_list bs]"
    unfolding blocks_def map_map
  proof (rule map_cong [OF refl])
    fix r assume "r \<in> set [0..<prod_list bs]"
    then have r: "r < prod_list bs" by simp
    have "Suc r * n \<le> prod_list bs * n" using r by (intro mult_le_mono1) simp
    with len have in_range: "r * n + n \<le> length cs" by simp
    have l: "length (take n (drop (r * n) cs)) = n" using in_range by simp
    have "(\<forall>x \<in> set (take n (drop (r * n) cs)). x) \<longleftrightarrow>
            (\<forall>j < n. take n (drop (r * n) cs) ! j)"
      unfolding all_set_conv_all_nth l ..
    also have "\<dots> \<longleftrightarrow> (\<forall>j < n. cs ! (r * n + j))"
      using in_range by simp
    finally show "((\<lambda>b. \<forall>x \<in> set b. x) \<circ> (\<lambda>i. take n (drop (i * n) cs))) r =
                    (\<forall>j < n. cs ! (r * n + j))"
      by simp
  qed
  finally have d: "concat (map (\<lambda>b. and_rows 1 (blocks n 1 b)) ?rows) =
                     map (\<lambda>r. \<forall>j < n. cs ! (r * n + j)) [0..<prod_list bs]" .
  have "all_dim \<lparr>shape = bs @ [n], data = cs\<rparr> (- 1) =
          Inr \<lparr>shape = bs, data = concat (map (\<lambda>b. and_rows 1 (blocks n 1 b)) ?rows)\<rparr>"
    by (simp add: all_dim_def Let_def nth_append)
  then show ?thesis by (simp only: d)
qed

lemma log_prob_one_event_dim:
  assumes wv: "wf_tensor value" and sv: "shape value = bs @ [n]"
    and wp: "wf_tensor (param d)" and ev: "length (event_shape d) = 1"
    and ex: "expand_as (param d) value = Inr p"
  shows "log_prob d value =
           Inr \<lparr>shape = bs,
                data = map (\<lambda>r. if \<forall>j < n. \<bar>data value ! (r * n + j) - data p ! (r * n + j)\<bar>
                                            < atol d + rtol d * \<bar>data p ! (r * n + j)\<bar>
                                then PosInf else NegInf) [0..<prod_list bs]\<rparr>"
proof -
  let ?close = "\<lambda>v q. \<bar>v - q\<bar> < atol d + rtol d * \<bar>q\<bar>"
  let ?cs = "map2 ?close (data value) (data p)"
  from wf_expand [OF wp ex [unfolded expand_as_def]]
  have lp: "length (data p) = prod_list bs * n" by (simp add: wf_tensor_def sv)
  have lv: "length (data value) = prod_list bs * n" using wv sv by (simp add: wf_tensor_def)
  have lc: "length ?cs = prod_list bs * n" using lp lv by simp
  have el: "(\<forall>j < n. ?cs ! (r * n + j)) \<longleftrightarrow>
            (\<forall>j < n. ?close (data value ! (r * n + j)) (data p ! (r * n + j)))"
    if "r < prod_list bs" for r
  proof -
    have "Suc r * n \<le> prod_list bs * n" using that by (intro mult_le_mono1) simp
    then have "r * n + j < prod_list bs * n" if "j < n" for j using that by simp
    then show ?thesis using lp lv by simp
  qed
  have "is_equal_of d value =
          Inr \<lparr>shape = bs, data = map (\<lambda>r. \<forall>j < n. ?cs ! (r * n + j)) [0..<prod_list bs]\<rparr>"
    using all_dim_last [OF lc]
    by (simp add: is_equal_of_def ex ev event_range_def sv)
  also have "map (\<lambda>r. \<forall>j < n. ?cs ! (r * n + j)) [0..<prod_list bs] =
             map (\<lambda>r. \<forall>j < n. ?close (data value ! (r * n + j)) (data p ! (r * n + j)))
               [0..<prod_list bs]"
    by (rule map_cong) (simp_all add: el)
  finally show ?thesis
    by (simp add: log_prob_def Let_def masked_fill_def zeros_like_def map_tensor_def zip_map1
          zip_map2 zip_same_conv_map map2_map_map o_def)
qed

section \<open>Properties of the module\<close>

text \<open>
  Claim C9. Constructing the deprecated \<^verbatim>\<open>NormalParamWrapper\<close> fails for all constructor
  arguments with the error that sends callers to \<^verbatim>\<open>NormalParamExtractor\<close>, and no instance
  is ever produced.
\<close>

theorem NormalParamWrapper_init_fails:
  "NormalParamWrapper_init operator scale_mapping scale_lb =
     Inl (Deprecated ''NormalParamWrapper has been deprecated in favor of `tensordict.nn.NormalParamExtractor`. Use this class instead.'')
   \<and> (\<forall>inst. NormalParamWrapper_init operator scale_mapping scale_lb \<noteq> Inr inst)"
  by (simp add: NormalParamWrapper_init_def)

text \<open>
  Claim C8. A \<^verbatim>\<open>Delta\<close> constructed with parameter \<open>p\<close> and with both shapes left unspecified
  has \<^verbatim>\<open>p.shape[:-1]\<close> as batch shape (all sizes but the last) and \<^verbatim>\<open>p.shape[-1:]\<close> as event
  shape (the last size alone, or nothing for a parameter without dimensions); together they
  are the shape of the parameter.
\<close>

theorem Delta_init_derives_shapes:
  "batch_shape (Delta_init p a r None None) = butlast (shape p)
   \<and> event_shape (Delta_init p a r None None) = (if shape p = [] then [] else [last (shape p)])
   \<and> batch_shape (Delta_init p a r None None) @ event_shape (Delta_init p a r None None) = shape p
   \<and> param (Delta_init p a r None None) = p"
  by (simp add: Delta_init_def update_def slice_to_minus1 slice_from_minus1)

text \<open>
  Claim C10. The constructor treats explicitly passed empty shapes exactly like omitted ones:
  the shapes are derived from the parameter whenever both are empty, so that an empty event
  shape asked for explicitly is not honoured for a parameter with at least one dimension; when
  one of the two is passed non-empty nothing is derived and the other stays empty.
\<close>

theorem Delta_init_empty_shapes:
  "Delta_init p a r (Some []) (Some []) = Delta_init p a r None None
   \<and> Delta_init p a r (Some []) None = Delta_init p a r None None
   \<and> Delta_init p a r None (Some []) = Delta_init p a r None None
   \<and> (shape p \<noteq> [] \<longrightarrow> event_shape (Delta_init p a r (Some []) (Some [])) = [last (shape p)])
   \<and> (bs \<noteq> [] \<longrightarrow>
        batch_shape (Delta_init p a r (Some bs) None) = bs
        \<and> event_shape (Delta_init p a r (Some bs) None) = []
        \<and> Delta_init p a r (Some bs) (Some []) = Delta_init p a r (Some bs) None)
   \<and> (es \<noteq> [] \<longrightarrow>
        batch_shape (Delta_init p a r None (Some es)) = []
        \<and> event_shape (Delta_init p a r None (Some es)) = es
        \<and> Delta_init p a r (Some []) (Some es) = Delta_init p a r None (Some es))"
  by (simp add: Delta_init_def update_def slice_from_minus1)

theorem Delta_init_empty_shapes_witness:
  "shape \<lparr>shape = [2, 3], data = [1, 2, 3, 4, 5, 6 :: real]\<rparr> \<noteq> [] \<and> [4::nat] \<noteq> [] \<and> [5::nat] \<noteq> []
   \<and> event_shape (Delta_init \<lparr>shape = [2, 3], data = [1, 2, 3, 4, 5, 6]\<rparr> 0 0 (Some []) (Some [])) = [3]
   \<and> batch_shape (Delta_init \<lparr>shape = [2, 3], data = [1, 2, 3, 4, 5, 6]\<rparr> 0 0 (Some [4]) None) = [4]
   \<and> event_shape (Delta_init \<lparr>shape = [2, 3], data = [1, 2, 3, 4, 5, 6]\<rparr> 0 0 (Some [4]) None) = []
   \<and> batch_shape (Delta_init \<lparr>shape = [2, 3], data = [1, 2, 3, 4, 5, 6]\<rparr> 0 0 None (Some [5])) = []
   \<and> event_shape (Delta_init \<lparr>shape = [2, 3], data = [1, 2, 3, 4, 5, 6]\<rparr> 0 0 None (Some [5])) = [5]"
  using Delta_init_empty_shapes [of "\<lparr>shape = [2, 3], data = [1, 2, 3, 4, 5, 6]\<rparr>" 0 0 "[4]" "[5]"]
  by (simp add: Delta_init_def update_def slice_from_minus1)

text \<open>
  Claim C7. For a \<^verbatim>\<open>Delta\<close> constructed with parameter \<open>p\<close> and every tensor \<open>q\<close>,
  \<^verbatim>\<open>update(q)\<close> followed by \<^verbatim>\<open>sample()\<close> returns \<open>q\<close>, not the original \<open>p\<close>, and
  \<^verbatim>\<open>update\<close> leaves the batch and event shapes as they were.
\<close>

theorem update_then_sample:
  "wf_tensor q \<Longrightarrow>
     sample (update (Delta_init p a r bsa esa) q) None = Inr q
     \<and> (q \<noteq> p \<longrightarrow> sample (update (Delta_init p a r bsa esa) q) None \<noteq> Inr p)
     \<and> batch_shape (update (Delta_init p a r bsa esa) q) = batch_shape (Delta_init p a r bsa esa)
     \<and> event_shape (update (Delta_init p a r bsa esa) q) = event_shape (Delta_init p a r bsa esa)"
  by (simp add: sample_def update_def expand_same)

theorem update_then_sample_witness:
  "wf_tensor \<lparr>shape = [2], data = [7, 8 :: real]\<rparr>
   \<and> \<lparr>shape = [2], data = [7, 8 :: real]\<rparr> \<noteq> \<lparr>shape = [2], data = [1, 2]\<rparr>
   \<and> sample (update (Delta_init \<lparr>shape = [2], data = [1, 2]\<rparr> 0 0 None None)
        \<lparr>shape = [2], data = [7, 8]\<rparr>) None = Inr \<lparr>shape = [2], data = [7, 8]\<rparr>
   \<and> event_shape (update (Delta_init \<lparr>shape = [2], data = [1, 2]\<rparr> 0 0 None None)
        \<lparr>shape = [2], data = [7, 8]\<rparr>) = [2]"
  using update_then_sample [of "\<lparr>shape = [2], data = [7, 8]\<rparr>" "\<lparr>shape = [2], data = [1, 2]\<rparr>" 0 0 None None]
  by (simp add: wf_tensor_def Delta_init_def update_def slice_from_minus1)

text \<open>
  Claim C6. For every \<^verbatim>\<open>Delta\<close> with parameter \<open>p\<close> and every sample shape \<open>s\<close>,
  \<^verbatim>\<open>sample(s)\<close> and \<^verbatim>\<open>rsample(s)\<close> both return \<open>p\<close> expanded to the shape \<open>s @ shape p\<close>, that is
  as many copies of the elements of \<open>p\<close> as \<open>s\<close> multiplies to; with the default empty sample
  shape they return \<open>p\<close>; and \<^verbatim>\<open>mode\<close>, \<^verbatim>\<open>mean\<close> and \<^verbatim>\<open>deterministic_sample\<close> return \<open>p\<close>
  unchanged.
\<close>

theorem sample_returns_param:
  "wf_tensor (param d) \<Longrightarrow>
     sample d (Some s) =
       Inr \<lparr>shape = s @ shape (param d), data = concat (replicate (prod_list s) (data (param d)))\<rparr>
     \<and> rsample d (Some s) = sample d (Some s)
     \<and> sample d None = Inr (param d)
     \<and> rsample d None = Inr (param d)
     \<and> sample d (Some []) = Inr (param d)
     \<and> mode d = param d \<and> mean d = param d \<and> deterministic_sample d = param d"
  by (simp add: sample_def rsample_def mode_def mean_def deterministic_sample_def
        expand_lead expand_same)

theorem sample_returns_param_witness:
  "wf_tensor (param (Delta_init \<lparr>shape = [2], data = [1, 2]\<rparr> 0 0 None None))
   \<and> sample (Delta_init \<lparr>shape = [2], data = [1, 2]\<rparr> 0 0 None None) (Some [3]) =
       Inr \<lparr>shape = [3, 2], data = [1, 2, 1, 2, 1, 2]\<rparr>
   \<and> rsample (Delta_init \<lparr>shape = [2], data = [1, 2]\<rparr> 0 0 None None) None =
       Inr \<lparr>shape = [2], data = [1, 2]\<rparr>"
proof -
  have w: "wf_tensor (param (Delta_init \<lparr>shape = [2], data = [1, 2]\<rparr> 0 0 None None))"
    by (simp add: wf_tensor_def Delta_init_def update_def)
  have p: "param (Delta_init \<lparr>shape = [2], data = [1, 2]\<rparr> 0 0 None None) = \<lparr>shape = [2], data = [1, 2]\<rparr>"
    by (simp add: Delta_init_def update_def)
  have r: "replicate 3 [1, 2 :: real] = [[1, 2], [1, 2], [1, 2]]"
    by (simp add: numeral_3_eq_3)
  show ?thesis
    using w sample_returns_param [OF w, of "[3]"] by (simp add: p r)
qed

text \<open>
  Claim C3. For every tensor \<open>x\<close> whose last dimension has the even size \<open>2 * k\<close> and every
  mapping, \<^verbatim>\<open>forward\<close> returns \<open>loc\<close> and \<open>scale\<close> (followed by the other tensors as they came)
  of shape \<^verbatim>\<open>x.shape[:-1] + (k,)\<close>, where \<open>loc\<close> is the first half of each row of \<open>x\<close> and \<open>scale\<close>
  is the mapping applied to the second half, clamped below by \<^verbatim>\<open>scale_lb\<close>; every element of
  \<open>scale\<close> is at least \<^verbatim>\<open>scale_lb\<close>.
\<close>

theorem NormalParamExtractor_forward_even:
  assumes "wf_tensor x" and "shape x = sh @ [2 * k]"
  shows "\<exists>loc scale.
           NormalParamExtractor_forward m (x # others) = Inr (loc # scale # others)
           \<and> shape loc = sh @ [k] \<and> shape scale = sh @ [k]
           \<and> length (data loc) = prod_list sh * k \<and> length (data scale) = prod_list sh * k
           \<and> (\<forall>r < prod_list sh. \<forall>j < k.
                 data loc ! (r * k + j) = data x ! (r * (2 * k) + j)
                 \<and> data scale ! (r * k + j) =
                     max (npe_scale_mapping m (data x ! (r * (2 * k) + k + j))) (npe_scale_lb m))
           \<and> (\<forall>v \<in> set (data scale). npe_scale_lb m \<le> v)"
proof -
  let ?loc = "narrow_last x 0 k"
  let ?raw = "narrow_last x k k"
  let ?scale = "clamp_min (map_tensor (npe_scale_mapping m) ?raw) (npe_scale_lb m)"
  have fwd: "NormalParamExtractor_forward m (x # others) = Inr (?loc # ?scale # others)"
    by (simp add: NormalParamExtractor_forward_def chunk_last_even [OF assms(2)])
  have f0: "0 + k \<le> 2 * k" and f1: "k + k \<le> 2 * k" by simp_all
  note L = narrow_last_rows [OF assms f0]
  note R = narrow_last_rows [OF assms f1]
  have s1: "shape ?loc = sh @ [k]" and s2: "shape ?scale = sh @ [k]"
    using assms(2) by (simp_all add: shape_narrow_last shape_clamp_map)
  have l1: "length (data ?loc) = prod_list sh * k" by (rule L(1))
  have l2: "length (data ?scale) = prod_list sh * k"
    using R(1) by (simp add: data_clamp_map)
  have el: "\<forall>r < prod_list sh. \<forall>j < k.
              data ?loc ! (r * k + j) = data x ! (r * (2 * k) + j)
              \<and> data ?scale ! (r * k + j) =
                  max (npe_scale_mapping m (data x ! (r * (2 * k) + k + j))) (npe_scale_lb m)"
  proof (intro allI impI)
    fix r j
    assume r: "r < prod_list sh" and j: "j < k"
    have "Suc r * k \<le> prod_list sh * k" using r by (intro mult_le_mono1) simp
    with j have idx: "r * k + j < length (data ?raw)" unfolding R(1) by simp
    have a: "data ?loc ! (r * k + j) = data x ! (r * (2 * k) + j)"
      using L(2) [OF r j] by simp
    have "data ?scale ! (r * k + j) = max (npe_scale_mapping m (data ?raw ! (r * k + j))) (npe_scale_lb m)"
      using idx by (simp add: data_clamp_map)
    with R(2) [OF r j] a
    show "data ?loc ! (r * k + j) = data x ! (r * (2 * k) + j)
          \<and> data ?scale ! (r * k + j) =
              max (npe_scale_mapping m (data x ! (r * (2 * k) + k + j))) (npe_scale_lb m)"
      by simp
  qed
  have lb: "\<forall>v \<in> set (data ?scale). npe_scale_lb m \<le> v"
    by (rule clamp_min_bound)
  from fwd s1 s2 l1 l2 el lb show ?thesis by blast
qed

theorem NormalParamExtractor_forward_even_witness:
  "wf_tensor \<lparr>shape = [2, 2], data = [1, - 2, 3, 4 :: real]\<rparr>
   \<and> shape \<lparr>shape = [2, 2], data = [1, - 2, 3, 4 :: real]\<rparr> = [2] @ [2 * 1]
   \<and> NormalParamExtractor_forward \<lparr>npe_scale_mapping = (\<lambda>v. max v 0), npe_scale_lb = 1 / 10000\<rparr>
        [\<lparr>shape = [2, 2], data = [1, - 2, 3, 4]\<rparr>, \<lparr>shape = [], data = [9]\<rparr>] =
       Inr [\<lparr>shape = [2, 1], data = [1, 3]\<rparr>, \<lparr>shape = [2, 1], data = [1 / 10000, 4]\<rparr>,
            \<lparr>shape = [], data = [9]\<rparr>]
   \<and> (\<exists>loc scale.
        NormalParamExtractor_forward \<lparr>npe_scale_mapping = (\<lambda>v. max v 0), npe_scale_lb = 1 / 10000\<rparr>
          [\<lparr>shape = [2, 2], data = [1, - 2, 3, 4]\<rparr>, \<lparr>shape = [], data = [9]\<rparr>] =
          Inr [loc, scale, \<lparr>shape = [], data = [9]\<rparr>]
        \<and> shape loc = [2, 1] \<and> shape scale = [2, 1]
        \<and> (\<forall>v \<in> set (data scale). 1 / 10000 \<le> v))"
proof -
  let ?x = "\<lparr>shape = [2, 2], data = [1, - 2, 3, 4 :: real]\<rparr>"
  let ?m = "\<lparr>npe_scale_mapping = (\<lambda>v. max v 0), npe_scale_lb = 1 / 10000 :: real\<rparr>"
  have w: "wf_tensor ?x" by (simp add: wf_tensor_def)
  have s: "shape ?x = [2] @ [2 * 1]" by simp
  have ev: "NormalParamExtractor_forward ?m [?x, \<lparr>shape = [], data = [9]\<rparr>] =
       Inr [\<lparr>shape = [2, 1], data = [1, 3]\<rparr>, \<lparr>shape = [2, 1], data = [1 / 10000, 4]\<rparr>,
            \<lparr>shape = [], data = [9]\<rparr>]"
    by code_simp
  from NormalParamExtractor_forward_even [OF w s, of ?m "[\<lparr>shape = [], data = [9]\<rparr>]"]
  obtain loc scale where
    "NormalParamExtractor_forward ?m [?x, \<lparr>shape = [], data = [9]\<rparr>] =
       Inr [loc, scale, \<lparr>shape = [], data = [9]\<rparr>]"
    "shape loc = [2] @ [1]" "shape scale = [2] @ [1]"
    "\<forall>v \<in> set (data scale). npe_scale_lb ?m \<le> v"
    by blast
  then have "\<exists>loc scale.
        NormalParamExtractor_forward ?m [?x, \<lparr>shape = [], data = [9]\<rparr>] =
          Inr [loc, scale, \<lparr>shape = [], data = [9]\<rparr>]
        \<and> shape loc = [2, 1] \<and> shape scale = [2, 1]
        \<and> (\<forall>v \<in> set (data scale). 1 / 10000 \<le> v)"
    by simp
  with w s ev show ?thesis by blast
qed

text \<open>
  Claim C2 says that \<^verbatim>\<open>forward\<close> fails on every tensor whose last dimension is odd. The module
  has no test of the shape: on a last dimension of size 3, \<^verbatim>\<open>chunk\<close> gives pieces of 2 and 1 and
  \<^verbatim>\<open>forward\<close> returns them.
\<close>

theorem NormalParamExtractor_forward_odd_counterexample:
  "odd (last (shape \<lparr>shape = [3], data = [1, 2, 3 :: real]\<rparr>))
   \<and> NormalParamExtractor_forward \<lparr>npe_scale_mapping = (\<lambda>v. max v 0), npe_scale_lb = 1 / 10000\<rparr>
        [\<lparr>shape = [3], data = [1, 2, 3]\<rparr>] =
       Inr [\<lparr>shape = [2], data = [1, 2]\<rparr>, \<lparr>shape = [1], data = [3]\<rparr>]"
proof -
  have "NormalParamExtractor_forward \<lparr>npe_scale_mapping = (\<lambda>v. max v 0), npe_scale_lb = 1 / 10000\<rparr>
        [\<lparr>shape = [3], data = [1, 2, 3]\<rparr>] =
       Inr [\<lparr>shape = [2], data = [1, 2]\<rparr>, \<lparr>shape = [1], data = [3]\<rparr>]"
    by code_simp
  then show ?thesis by simp
qed

text \<open>
  Claim C2, amended. On a tensor whose last dimension has an odd size \<open>n\<close>, \<^verbatim>\<open>forward\<close> fails only
  for \<open>n = 1\<close>, with the error of the tuple assignment (one piece where two are expected) and
  no result; for \<open>n \<ge> 3\<close> it returns \<open>loc\<close> with a last dimension of \<open>(n + 1) div 2\<close> and
  \<open>scale\<close> with one of \<open>n div 2\<close>, each element of \<open>scale\<close> at least \<^verbatim>\<open>scale_lb\<close>.
\<close>

theorem NormalParamExtractor_forward_odd:
  assumes "shape x = sh @ [n]" and "odd n"
  shows "(n = 1 \<longrightarrow> NormalParamExtractor_forward m (x # others) = Inl (UnpackError 2 1))
       \<and> (n \<noteq> 1 \<longrightarrow>
            (\<exists>loc scale.
               NormalParamExtractor_forward m (x # others) = Inr (loc # scale # others)
               \<and> shape loc = sh @ [(n + 1) div 2] \<and> shape scale = sh @ [n div 2]
               \<and> (\<forall>v \<in> set (data scale). npe_scale_lb m \<le> v)))"
proof (cases "n = 1")
  case True
  with assms(1) have "chunk_last x 2 = Inr [narrow_last x 0 1]"
    by (intro chunk_last_one) simp
  with True show ?thesis by (simp add: NormalParamExtractor_forward_def)
next
  case False
  define k where "k = (n - 3) div 2"
  have n: "n = 2 * k + 3"
    unfolding k_def using assms(2) False by presburger
  let ?loc = "narrow_last x 0 (k + 2)"
  let ?raw = "narrow_last x (k + 2) (k + 1)"
  let ?scale = "clamp_min (map_tensor (npe_scale_mapping m) ?raw) (npe_scale_lb m)"
  have sx: "shape x = sh @ [2 * k + 3]" using assms(1) n by simp
  have fwd: "NormalParamExtractor_forward m (x # others) = Inr (?loc # ?scale # others)"
    by (simp add: NormalParamExtractor_forward_def chunk_last_odd [OF sx])
  have h1: "(n + 1) div 2 = k + 2" and h2: "n div 2 = k + 1" using n by simp_all
  have s1: "shape ?loc = sh @ [(n + 1) div 2]" and s2: "shape ?scale = sh @ [n div 2]"
    unfolding h1 h2 using sx by (simp_all add: shape_narrow_last shape_clamp_map)
  have lb: "\<forall>v \<in> set (data ?scale). npe_scale_lb m \<le> v"
    by (rule clamp_min_bound)
  from fwd s1 s2 lb False show ?thesis by blast
qed

theorem NormalParamExtractor_forward_odd_witness:
  "shape \<lparr>shape = [2, 1], data = [1, 2 :: real]\<rparr> = [2] @ [1] \<and> odd (1 :: nat)
   \<and> NormalParamExtractor_forward \<lparr>npe_scale_mapping = (\<lambda>v. max v 0), npe_scale_lb = 1 / 10000\<rparr>
        [\<lparr>shape = [2, 1], data = [1, 2]\<rparr>] = Inl (UnpackError 2 1)
   \<and> shape \<lparr>shape = [5], data = [1, 2, 3, 4, 5 :: real]\<rparr> = [] @ [5] \<and> odd (5 :: nat)
   \<and> (\<exists>loc scale.
        NormalParamExtractor_forward \<lparr>npe_scale_mapping = (\<lambda>v. max v 0), npe_scale_lb = 1 / 10000\<rparr>
          [\<lparr>shape = [5], data = [1, 2, 3, 4, 5]\<rparr>] = Inr [loc, scale]
        \<and> shape loc = [3] \<and> shape scale = [2])"
proof -
  let ?m = "\<lparr>npe_scale_mapping = (\<lambda>v. max v 0), npe_scale_lb = 1 / 10000 :: real\<rparr>"
  have a: "shape \<lparr>shape = [2, 1], data = [1, 2 :: real]\<rparr> = [2] @ [1]" by simp
  have b: "shape \<lparr>shape = [5], data = [1, 2, 3, 4, 5 :: real]\<rparr> = [] @ [5]" by simp
  have o1: "odd (1 :: nat)" and o5: "odd (5 :: nat)" by simp_all
  have d: "(5 + 1) div 2 = (3 :: nat)" "5 div 2 = (2 :: nat)" by simp_all
  from NormalParamExtractor_forward_odd [OF a o1, of ?m "[]"]
  have r1: "NormalParamExtractor_forward ?m [\<lparr>shape = [2, 1], data = [1, 2]\<rparr>] = Inl (UnpackError 2 1)"
    by simp
  from NormalParamExtractor_forward_odd [OF b o5, of ?m "[]"]
  have r5: "\<exists>loc scale.
        NormalParamExtractor_forward ?m [\<lparr>shape = [5], data = [1, 2, 3, 4, 5]\<rparr>] = Inr [loc, scale]
        \<and> shape loc = [3] \<and> shape scale = [2]"
    unfolding d by auto
  from a b o1 o5 r1 r5 show ?thesis by blast
qed

text \<open>
  Claim C1 has \<^verbatim>\<open>forward\<close> succeed whenever the last \<^verbatim>\<open>len(scale_shape)\<close> sizes of \<open>loc\<close> equal
  \<^verbatim>\<open>scale_shape\<close>, and so for every \<open>loc\<close> under the default empty \<^verbatim>\<open>scale_shape\<close>. The module
  built with the defaults has the empty scale shape; for it the slice
  \<^verbatim>\<open>loc.shape[-len(self.scale_shape):]\<close> is \<^verbatim>\<open>loc.shape[0:]\<close>, the whole shape, and \<^verbatim>\<open>forward\<close> on a
  \<open>loc\<close> of shape \<open>[3]\<close> raises the shape error.
\<close>

theorem default_scale_shape_rejects_loc:
  "AddStateIndependentNormalScale_init ShapeNone ''exp'' (1 / 10000) True 0 =
     Inr \<lparr>asins_scale_lb = 1 / 10000, asins_scale_shape = [], asins_scale_mapping = ''exp'',
          state_independent_scale = \<lparr>shape = [], data = [0]\<rparr>, asins_is_param = True\<rparr>
   \<and> slice_from (- int (length ([] :: nat list))) [3 :: nat] = [3]
   \<and> AddStateIndependentNormalScale_forward
        \<lparr>asins_scale_lb = 1 / 10000, asins_scale_shape = [], asins_scale_mapping = ''exp'',
         state_independent_scale = \<lparr>shape = [], data = [0]\<rparr>, asins_is_param = True\<rparr>
        \<lparr>shape = [3], data = [1, 2, 3]\<rparr> [] = Inl (ShapeMismatch [3] [])"
  by (simp add: AddStateIndependentNormalScale_init_def AddStateIndependentNormalScale_forward_def
        full_def slice_from_def slice_to_def)

text \<open>
  Claim C5 has both constructors fail on a mapping name that the registry does not know.
  The constructor of \<^verbatim>\<open>AddStateIndependentNormalScale\<close> stores the name and returns a module.
\<close>

theorem unknown_mapping_init_counterexample:
  "mappings ''bogus'' = Inl (UnknownMapping ''bogus'')
   \<and> AddStateIndependentNormalScale_init ShapeNone ''bogus'' (1 / 10000) True 0 =
       Inr \<lparr>asins_scale_lb = 1 / 10000, asins_scale_shape = [], asins_scale_mapping = ''bogus'',
            state_independent_scale = \<lparr>shape = [], data = [0]\<rparr>, asins_is_param = True\<rparr>"
  by (simp add: mappings_def AddStateIndependentNormalScale_init_def full_def)

text \<open>
  Claim C5, amended. For a name the registry rejects, \<^verbatim>\<open>NormalParamExtractor\<close> fails at
  construction with the registry's error; \<^verbatim>\<open>AddStateIndependentNormalScale\<close> is constructed, keeps
  the name, and every call of its \<^verbatim>\<open>forward\<close> fails: with the shape error when the shape test
  fails, and with the registry's error otherwise. No path falls back to another mapping.
\<close>

theorem unknown_mapping_paths:
  assumes "mappings name = Inl e"
  shows "e = UnknownMapping name
     \<and> NormalParamExtractor_init name lb = Inl e
     \<and> (\<exists>m. AddStateIndependentNormalScale_init sa name lb make_param init_value = Inr m
            \<and> asins_scale_mapping m = name
            \<and> (\<forall>loc others.
                 AddStateIndependentNormalScale_forward m loc others =
                   (if asins_scale_shape m =
                         slice_from (- int (length (asins_scale_shape m))) (shape loc)
                    then Inl e
                    else Inl (ShapeMismatch
                            (slice_from (- int (length (asins_scale_shape m))) (shape loc))
                            (asins_scale_shape m)))))"
proof -
  let ?sizes = "case sa of ShapeNone \<Rightarrow> [] | ShapeInt n \<Rightarrow> [n] | ShapeSeq s \<Rightarrow> s"
  let ?m = "\<lparr>asins_scale_lb = lb, asins_scale_shape = ?sizes, asins_scale_mapping = name,
             state_independent_scale = full ?sizes init_value, asins_is_param = make_param\<rparr>"
  have i: "AddStateIndependentNormalScale_init sa name lb make_param init_value = Inr ?m"
    by (simp add: AddStateIndependentNormalScale_init_def Let_def)
  have s: "shape (state_independent_scale ?m) = asins_scale_shape ?m"
    by (simp add: full_def)
  have w: "wf_tensor (state_independent_scale ?m)"
    by (simp add: wf_full)
  have f: "AddStateIndependentNormalScale_forward ?m loc others =
             (if asins_scale_shape ?m =
                   slice_from (- int (length (asins_scale_shape ?m))) (shape loc)
              then Inl e
              else Inl (ShapeMismatch
                      (slice_from (- int (length (asins_scale_shape ?m))) (shape loc))
                      (asins_scale_shape ?m)))" for loc others
  proof (cases "asins_scale_shape ?m =
                   slice_from (- int (length (asins_scale_shape ?m))) (shape loc)")
    case True
    have n: "asins_scale_mapping ?m = name" by simp
    show ?thesis
      unfolding forward_shape_match [OF True w s] n assms using True by simp
  next
    case False
    show ?thesis
      unfolding forward_shape_mismatch [OF False] s using False by simp
  qed
  have n: "NormalParamExtractor_init name lb = Inl e"
    using assms by (simp add: NormalParamExtractor_init_def)
  from mappings_error [OF assms] n i f show ?thesis by simp
qed

theorem unknown_mapping_paths_witness:
  "mappings ''bogus'' = Inl (UnknownMapping ''bogus'')
   \<and> NormalParamExtractor_init ''bogus'' (1 / 10000) = Inl (UnknownMapping ''bogus'')
   \<and> (\<exists>m. AddStateIndependentNormalScale_init (ShapeInt 2) ''bogus'' (1 / 10000) True 0 = Inr m
          \<and> AddStateIndependentNormalScale_forward m \<lparr>shape = [3, 2], data = [1, 2, 3, 4, 5, 6]\<rparr> [] =
              Inl (UnknownMapping ''bogus'')
          \<and> AddStateIndependentNormalScale_forward m \<lparr>shape = [3], data = [1, 2, 3]\<rparr> [] =
              Inl (ShapeMismatch [3] [2]))"
proof -
  have b: "mappings ''bogus'' = Inl (UnknownMapping ''bogus'')"
    by (simp add: mappings_def)
  from unknown_mapping_paths [OF b, of "1 / 10000" "ShapeInt 2" True 0]
  obtain m where m: "NormalParamExtractor_init ''bogus'' (1 / 10000) = Inl (UnknownMapping ''bogus'')"
      "AddStateIndependentNormalScale_init (ShapeInt 2) ''bogus'' (1 / 10000) True 0 = Inr m"
      "\<And>loc others. AddStateIndependentNormalScale_forward m loc others =
                   (if asins_scale_shape m =
                         slice_from (- int (length (asins_scale_shape m))) (shape loc)
                    then Inl (UnknownMapping ''bogus'')
                    else Inl (ShapeMismatch
                            (slice_from (- int (length (asins_scale_shape m))) (shape loc))
                            (asins_scale_shape m)))"
    by blast
  from m(2) have ss: "asins_scale_shape m = [2]"
    by (auto simp: AddStateIndependentNormalScale_init_def Let_def)
  have "AddStateIndependentNormalScale_forward m \<lparr>shape = [3, 2], data = [1, 2, 3, 4, 5, 6]\<rparr> [] =
              Inl (UnknownMapping ''bogus'')"
    unfolding m(3) ss by (simp add: slice_from_def)
  moreover have "AddStateIndependentNormalScale_forward m \<lparr>shape = [3], data = [1, 2, 3]\<rparr> [] =
              Inl (ShapeMismatch [3] [2])"
    unfolding m(3) ss by (simp add: slice_from_def)
  ultimately show ?thesis using b m(1,2) by blast
qed

text \<open>
  Claim C4 has \<^verbatim>\<open>log_prob\<close> reduce over the trailing \<^verbatim>\<open>len(event_shape)\<close> dimensions and return a
  tensor of the batch shape. The loop calls \<^verbatim>\<open>all(-1)\<close>, then \<^verbatim>\<open>all(-2)\<close> on the tensor that has
  already lost its last dimension. With two event dimensions and batch shape \<open>[1]\<close> the result
  has shape \<open>[2]\<close>; with batch shape \<open>[2]\<close> the second reduction runs over the batch, so the
  sample whose events all match gets \<open>NegInf\<close> and the other \<open>PosInf\<close>; without batch
  dimensions the second reduction is rejected.
\<close>

theorem log_prob_two_event_dims:
  "batch_shape (Delta_init \<lparr>shape = [1, 2, 1], data = [0, 0]\<rparr> (1 / 1000000) (1 / 1000000)
       (Some [1]) (Some [2, 1])) = [1]
   \<and> log_prob (Delta_init \<lparr>shape = [1, 2, 1], data = [0, 0]\<rparr> (1 / 1000000) (1 / 1000000)
       (Some [1]) (Some [2, 1])) \<lparr>shape = [1, 2, 1], data = [0, 5]\<rparr> =
     Inr \<lparr>shape = [2], data = [PosInf, NegInf]\<rparr>
   \<and> log_prob (Delta_init \<lparr>shape = [2, 2, 1], data = [0, 0, 0, 0]\<rparr> (1 / 1000000) (1 / 1000000)
       (Some [2]) (Some [2, 1])) \<lparr>shape = [2, 2, 1], data = [0, 5, 0, 0]\<rparr> =
     Inr \<lparr>shape = [2], data = [PosInf, NegInf]\<rparr>
   \<and> log_prob (Delta_init \<lparr>shape = [2, 2], data = [0, 0, 0, 0]\<rparr> (1 / 1000000) (1 / 1000000)
       (Some []) (Some [2, 2])) \<lparr>shape = [2, 2], data = [0, 0, 0, 0]\<rparr> =
     Inl (DimError (- 2) 1)"
  by code_simp


end
